theory Spec2Isabelle
  imports Complex_Main "HOL-Library.Word"
begin

section \<open>Values of the language\<close>

text \<open>
  A string is a sequence of 16-bit code units; \<open>length\<close> counts code units, as the
  \<open>length\<close> property of the source language does. \<open>ascii\<close> writes a literal.
\<close>

type_synonym jsstring = "16 word list"

definition ascii :: "string \<Rightarrow> jsstring" where
  "ascii s = map (\<lambda>c. of_nat (of_char c)) s"

text \<open>
  A number is NaN, an infinity or a finite value. Finite values are kept as the rational
  they denote (every finite double is one, and both zeros denote 0); the program only
  compares numbers and tests them for truthiness, and both read the denoted value alone.
\<close>

datatype number = NaN | NegInf | Finite rat | PosInf

text \<open>The relational operator \<open>a <= b\<close> on numbers: false as soon as one side is NaN.\<close>

fun num_le :: "number \<Rightarrow> number \<Rightarrow> bool" where
  "num_le NaN _ = False"
| "num_le _ NaN = False"
| "num_le NegInf _ = True"
| "num_le _ PosInf = True"
| "num_le (Finite a) (Finite b) = (a \<le> b)"
| "num_le PosInf _ = False"
| "num_le _ NegInf = False"

text \<open>\<open>a >= b\<close> on numbers.\<close>

definition num_ge :: "number \<Rightarrow> number \<Rightarrow> bool" where
  "num_ge a b = num_le b a"

text \<open>The \<open>string | number\<close> union of the \<open>value\<close> property, tagged as \<open>typeof\<close> reads it.\<close>

datatype jsvalue = Str jsstring | Num number

text \<open>Truthiness, as the condition of an \<open>if\<close> reads a string or a number.\<close>

fun truthy :: "jsvalue \<Rightarrow> bool" where
  "truthy (Str s) = (s \<noteq> [])"
| "truthy (Num n) = (n \<noteq> NaN \<and> n \<noteq> Finite 0)"

text \<open>
  The code units that \<open>trim\<close> strips: the white space and line terminator code points of
  the language (TAB, LF, VT, FF, CR, SP, NBSP, U+1680, U+2000 to U+200A, U+2028, U+2029,
  U+202F, U+205F, U+3000, U+FEFF).
\<close>

definition isWhiteSpace :: "16 word \<Rightarrow> bool" where
  "isWhiteSpace c =
     (c = 0x9 \<or> c = 0xA \<or> c = 0xB \<or> c = 0xC \<or> c = 0xD \<or> c = 0x20 \<or> c = 0xA0 \<or>
      c = 0x1680 \<or> (0x2000 \<le> c \<and> c \<le> 0x200A) \<or> c = 0x2028 \<or> c = 0x2029 \<or>
      c = 0x202F \<or> c = 0x205F \<or> c = 0x3000 \<or> c = 0xFEFF)"

definition trim :: "jsstring \<Rightarrow> jsstring" where
  "trim s = rev (dropWhile isWhiteSpace (rev (dropWhile isWhiteSpace s)))"

text \<open>
  \<open>value.toString()\<close>: a string is returned as it is; a number goes through the
  language's Number-to-String conversion. That conversion (shortest round-trip decimal)
  is a builtin outside this program; it is the parameter \<open>toStr\<close> of every definition
  that renders a number.
\<close>

fun toString :: "(number \<Rightarrow> jsstring) \<Rightarrow> jsvalue \<Rightarrow> jsstring" where
  "toString toStr (Str s) = s"
| "toString toStr (Num n) = toStr n"

text \<open>The \<open>length\<close> of a string, as a number.\<close>

definition str_length :: "jsstring \<Rightarrow> number" where
  "str_length s = Finite (of_nat (length s))"

section \<open>The validator\<close>

text \<open>
  The \<open>validate\<close> interface. An optional property is an \<open>option\<close>; \<open>!= null\<close> holds of
  it exactly when it is \<open>Some\<close>. The properties \<open>value\<close>, \<open>max\<close> and \<open>min\<close> are
  \<open>val\<close>, \<open>max_num\<close> and \<open>min_num\<close> here.
\<close>

record validate =
  val :: jsvalue
  required :: "bool option"
  minLength :: "number option"
  maxLength :: "number option"
  max_num :: "number option"
  min_num :: "number option"
  field :: jsstring

record verdict =
  isValid :: bool
  message :: jsstring

text \<open>
  \<open>validatedInput\<close>: five guarded blocks run in sequence over the two locals
  \<open>isValid\<close> and \<open>message\<close>. Each block that runs conjoins its test to \<open>isValid\<close> and
  then assigns \<open>message\<close> from the accumulated \<open>isValid\<close>.
\<close>

definition validatedInput :: "(number \<Rightarrow> jsstring) \<Rightarrow> validate \<Rightarrow> verdict" where
  "validatedInput toStr v =
    (let isValid0 = True;
         message0 = [];
         (isValid1, message1) =
           (if truthy (val v)
            then (let b = (isValid0 \<and> length (trim (toString toStr (val v))) \<noteq> 0)
                  in (b, if \<not> b then field v @ ascii '' field is required'' else []))
            else (isValid0, message0));
         (isValid2, message2) =
           (case (maxLength v, val v) of
              (Some m, Str s) \<Rightarrow>
                (let b = (isValid1 \<and> num_le (str_length s) m)
                 in (b, if \<not> b
                        then field v @ ascii '' field most not be more than '' @ toStr m
                               @ ascii '' characters''
                        else []))
            | _ \<Rightarrow> (isValid1, message1));
         (isValid3, message3) =
           (case (minLength v, val v) of
              (Some m, Str s) \<Rightarrow>
                (let b = (isValid2 \<and> num_ge (str_length s) m)
                 in (b, if \<not> b
                        then field v @ ascii '' field most not be less than '' @ toStr m
                               @ ascii '' characters''
                        else []))
            | _ \<Rightarrow> (isValid2, message2));
         (isValid4, message4) =
           (case (max_num v, val v) of
              (Some m, Num n) \<Rightarrow>
                (let b = (isValid3 \<and> num_le n m)
                 in (b, if \<not> b
                        then field v @ ascii '' field most not be more than '' @ toStr m
                               @ ascii '' numbers''
                        else []))
            | _ \<Rightarrow> (isValid3, message3));
         (isValid5, message5) =
           (case (min_num v, val v) of
              (Some m, Num n) \<Rightarrow>
                (let b = (isValid4 \<and> num_ge n m)
                 in (b, if \<not> b
                        then field v @ ascii '' field most not be less than '' @ toStr m
                               @ ascii '' numbers''
                        else []))
            | _ \<Rightarrow> (isValid4, message4))
     in \<lparr>isValid = isValid5, message = message5\<rparr>)"

section \<open>The project store\<close>

datatype ProjectStatus = Active | Finished

text \<open>The class \<open>Project\<close>; its property \<open>id\<close> is \<open>pid\<close> here.\<close>

record Project =
  pid :: jsstring
  title :: jsstring
  description :: jsstring
  people :: number
  status :: ProjectStatus

text \<open>
  Objects live in a heap and are named by their address, so that two references to one
  object see each other's writes: \<open>objects\<close> holds the \<open>Project\<close> instances and
  \<open>arrays\<close> the \<open>Project[]\<close> instances, each array a sequence of \<open>Project\<close>
  addresses. An address is an index; allocation appends, so a new address is unused.
\<close>

type_synonym addr = nat

record heap =
  objects :: "Project list"
  arrays :: "addr list list"

text \<open>
  A \<open>Listener\<close> is a function object \<open>(items: T[]) => void\<close>, here the name of
  one; what calling it does is given apart (\<open>behaviour\<close>, below).
\<close>

type_synonym Listener = nat

text \<open>
  One entry of the log of callback invocations: the listener called, the array it was
  handed, and the projects that array held at the call.
\<close>

record invocation =
  callee :: Listener
  arg :: addr
  items :: "Project list"

text \<open>
  The state of the page: the heap; the two fields of the single \<open>ProjectState\<close>
  instance (\<open>listeners\<close>, and \<open>projects\<close>, a reference to an array); the log of
  listener invocations; the texts shown by \<open>alert\<close>; and the \<open>value\<close> of each of the
  three input elements of \<open>ProjectForm\<close>.
\<close>

record world =
  mem :: heap
  listeners :: "Listener list"
  projects :: addr
  calls :: "invocation list"
  alerts :: "jsstring list"
  titlEl :: jsstring
  descriptionEl :: jsstring
  peopleEl :: jsstring

text \<open>
  How a call ends: it returns or it throws, and either way it leaves a state behind.
  A call that never ends has no outcome (\<open>None\<close>).
\<close>

datatype 'a outcome = Return 'a | Throw 'a

fun state_of :: "'a outcome \<Rightarrow> 'a" where
  "state_of (Return w) = w"
| "state_of (Throw w) = w"

text \<open>
  What the listeners do when called. A callback is code from outside the store: handed
  the address of an array, it may do anything to the page (write the array, write the
  projects through it, register listeners, call the store again) and then return or
  throw, or never end. The behaviour of the listeners is a parameter \<open>cb\<close> of
  everything that calls them.
\<close>

type_synonym behaviour = "Listener \<Rightarrow> addr \<Rightarrow> world \<Rightarrow> world outcome option"

text \<open>The state after \<open>ProjectState.getInstance()\<close> on a fresh page: no listener, an empty array.\<close>

definition init :: world where
  "init = \<lparr>mem = \<lparr>objects = [], arrays = [[]]\<rparr>, listeners = [], projects = 0,
            calls = [], alerts = [], titlEl = [], descriptionEl = [], peopleEl = []\<rparr>"

text \<open>The projects an array holds, read through the heap.\<close>

definition deref :: "heap \<Rightarrow> addr \<Rightarrow> Project list" where
  "deref h a = map (\<lambda>r. objects h ! r) (arrays h ! a)"

text \<open>The store's collection: the projects of \<open>this.projects\<close>, in order.\<close>

definition stored :: "world \<Rightarrow> Project list" where
  "stored w = deref (mem w) (projects w)"

text \<open>\<open>addListener\<close>: \<open>this.listeners.push(listenerFn)\<close>.\<close>

definition addListener :: "Listener \<Rightarrow> world \<Rightarrow> world" where
  "addListener listenerFn w = w\<lparr>listeners := listeners w @ [listenerFn]\<rparr>"

text \<open>\<open>a.slice()\<close>: a new array with the elements of \<open>a\<close>; the elements are shared.\<close>

definition slice :: "addr \<Rightarrow> heap \<Rightarrow> addr \<times> heap" where
  "slice a h = (length (arrays h), h\<lparr>arrays := arrays h @ [arrays h ! a]\<rparr>)"

text \<open>
  The body of the loop of \<open>updateListeners\<close>, \<open>listenerFn(this.projects.slice())\<close>:
  the slice is taken, the invocation is logged, the listener runs.
\<close>

definition call :: "behaviour \<Rightarrow> Listener \<Rightarrow> world \<Rightarrow> world outcome option" where
  "call cb listenerFn w =
     (let (a, h) = slice (projects w) (mem w);
          c = \<lparr>callee = listenerFn, arg = a, items = deref h a\<rparr>
      in cb listenerFn a (w\<lparr>mem := h, calls := calls w @ [c]\<rparr>))"

text \<open>
  The loop \<open>for (const listenerFn of this.listeners)\<close> from position \<open>i\<close> on. The
  array iterator reads the length and the element of the live array at every step, so a
  listener registered during the round is called in the round; there is no
  \<open>try\<close>, so a listener that throws ends the round, and the exception goes on to
  the caller.
\<close>

partial_function (option) notify :: "behaviour \<Rightarrow> nat \<Rightarrow> world \<Rightarrow> world outcome option" where
  "notify cb i w =
     (if i < length (listeners w)
      then (case call cb (listeners w ! i) w of
              None \<Rightarrow> None
            | Some r \<Rightarrow> (case r of Throw w' \<Rightarrow> Some (Throw w')
                                  | Return w' \<Rightarrow> notify cb (Suc i) w'))
      else Some (Return w))"

definition updateListeners :: "behaviour \<Rightarrow> world \<Rightarrow> world outcome option" where
  "updateListeners cb w = notify cb 0 w"

text \<open>
  \<open>addProject\<close>. The argument \<open>rnd\<close> is the string that
  \<open>Math.random().toString()\<close> evaluates to in this call: the draw is the
  environment's, so it is an input of the model.
\<close>

definition addProject ::
  "behaviour \<Rightarrow> jsstring \<Rightarrow> jsstring \<Rightarrow> jsstring \<Rightarrow> number \<Rightarrow> world \<Rightarrow> world outcome option" where
  "addProject cb rnd title' description' numOfPeople w =
     (let h = mem w;
          newProject = length (objects h);
          h1 = h\<lparr>objects := objects h @
                  [\<lparr>pid = rnd, title = title', description = description',
                    people = numOfPeople, status = Active\<rparr>]\<rparr>;
          h2 = h1\<lparr>arrays := (arrays h1)[projects w := arrays h1 ! projects w @ [newProject]]\<rparr>
      in updateListeners cb (w\<lparr>mem := h2\<rparr>))"

text \<open>
  \<open>moveProject\<close>: \<open>find\<close> returns the first project of the array with the given
  id, or nothing; the write goes to the object found.
\<close>

definition moveProject ::
  "behaviour \<Rightarrow> jsstring \<Rightarrow> ProjectStatus \<Rightarrow> world \<Rightarrow> world outcome option" where
  "moveProject cb projectId newStatus w =
     (let h = mem w
      in case find (\<lambda>prj. pid (objects h ! prj) = projectId) (arrays h ! projects w) of
           None \<Rightarrow> Some (Return w)
         | Some project \<Rightarrow>
             if status (objects h ! project) \<noteq> newStatus
             then updateListeners cb
                    (w\<lparr>mem := h\<lparr>objects := (objects h)
                                   [project := (objects h ! project)\<lparr>status := newStatus\<rparr>]\<rparr>\<rparr>)
             else Some (Return w))"

text \<open>
  A run of the store: any sequence of calls of its three public methods, each
  \<open>AddProject\<close> with the id drawn for it. A call that throws leaves its state to the
  calls after it; a call that never ends has none after it.
\<close>

datatype operation =
    AddListener Listener
  | AddProject jsstring jsstring jsstring number
  | MoveProject jsstring ProjectStatus

fun step :: "behaviour \<Rightarrow> operation \<Rightarrow> world \<Rightarrow> world outcome option" where
  "step cb (AddListener listenerFn) w = Some (Return (addListener listenerFn w))"
| "step cb (AddProject rnd t d n) w = addProject cb rnd t d n w"
| "step cb (MoveProject projectId newStatus) w = moveProject cb projectId newStatus w"

fun run :: "behaviour \<Rightarrow> operation list \<Rightarrow> world \<Rightarrow> world option" where
  "run cb [] w = Some w"
| "run cb (x # ops) w =
     (case step cb x w of None \<Rightarrow> None | Some r \<Rightarrow> run cb ops (state_of r))"

section \<open>The project form\<close>








section \<open>Notions used to state the properties\<close>

text \<open>
  A world is well formed when \<open>this.projects\<close> names an array of the heap and every
  element of that array names a \<open>Project\<close> of the heap.
\<close>

definition well_formed :: "world \<Rightarrow> bool" where
  "well_formed w \<longleftrightarrow>
     projects w < length (arrays (mem w)) \<and>
     (\<forall>r \<in> set (arrays (mem w) ! projects w). r < length (objects (mem w)))"

text \<open>
  What a heap \<open>h'\<close> keeps of a heap \<open>h\<close> when only the array \<open>a\<close> may have been
  written: every other array and every \<open>Project\<close> of \<open>h\<close> is as it was (new objects
  may have been allocated).
\<close>

definition frame :: "addr \<Rightarrow> heap \<Rightarrow> heap \<Rightarrow> bool" where
  "frame a h h' \<longleftrightarrow>
     length (arrays h) \<le> length (arrays h') \<and>
     (\<forall>b < length (arrays h). b \<noteq> a \<longrightarrow> arrays h' ! b = arrays h ! b) \<and>
     length (objects h) \<le> length (objects h') \<and>
     (\<forall>r < length (objects h). objects h' ! r = objects h ! r)"

text \<open>
  What a heap \<open>h'\<close> keeps of the store whose array is \<open>p\<close>: the array \<open>p\<close> and every
  \<open>Project\<close> of \<open>h\<close> are as they were.
\<close>

definition keeps :: "addr \<Rightarrow> heap \<Rightarrow> heap \<Rightarrow> bool" where
  "keeps p h h' \<longleftrightarrow>
     length (arrays h) \<le> length (arrays h') \<and>
     arrays h' ! p = arrays h ! p \<and>
     length (objects h) \<le> length (objects h') \<and>
     (\<forall>r < length (objects h). objects h' ! r = objects h ! r)"

text \<open>
  A listener is confined when, whatever array it is handed, it returns normally and the
  only things of the store it has changed are that array (it may append to it, reorder
  it, empty it) and what it has allocated: it has written no \<open>Project\<close> and no other
  array, and the registry, the store's reference to its array and the log are as they
  were.
\<close>

definition confined :: "behaviour \<Rightarrow> Listener \<Rightarrow> bool" where
  "confined cb listenerFn \<longleftrightarrow>
     (\<forall>a w. a < length (arrays (mem w)) \<longrightarrow>
        (\<exists>w'. cb listenerFn a w = Some (Return w') \<and>
              frame a (mem w) (mem w') \<and>
              listeners w' = listeners w \<and> projects w' = projects w \<and>
              calls w' = calls w))"

text \<open>
  A round of notification as the specification words it: each subscriber of a given
  sequence, in that order and once, is called on a new array that holds what the store's
  array holds at that moment. It is written out from the behaviour of the listeners
  alone, and stops at a call that does not return.
\<close>

fun served :: "behaviour \<Rightarrow> Listener list \<Rightarrow> world \<Rightarrow> world outcome option" where
  "served cb [] w = Some (Return w)"
| "served cb (l # ls) w =
     (case cb l (length (arrays (mem w)))
             (w\<lparr>mem := (mem w)\<lparr>arrays := arrays (mem w) @ [arrays (mem w) ! projects w]\<rparr>,
                calls := calls w @
                  [\<lparr>callee = l, arg = length (arrays (mem w)),
                    items = map (\<lambda>r. objects (mem w) ! r) (arrays (mem w) ! projects w)\<rparr>]\<rparr>) of
        Some (Return w') \<Rightarrow> served cb ls w'
      | r \<Rightarrow> r)"

text \<open>The invocations logged between a world and a later one.\<close>

definition fresh_calls :: "world \<Rightarrow> world \<Rightarrow> invocation list" where
  "fresh_calls w w' = drop (length (calls w)) (calls w')"



text \<open>
  Four listeners for examples. Listener 0 reverses the array it is handed and then
  appends the array to itself. Listener 1 sets the status of every project it is handed
  back to \<open>Active\<close>, through the shared objects. Listener 2 throws. Every other
  listener returns at once.
\<close>

definition scramble :: "addr \<Rightarrow> world \<Rightarrow> world" where
  "scramble a w =
     w\<lparr>mem := (mem w)\<lparr>arrays := (arrays (mem w))[a := rev (arrays (mem w) ! a) @ arrays (mem w) ! a]\<rparr>\<rparr>"

definition reopen :: "addr \<Rightarrow> world \<Rightarrow> world" where
  "reopen a w =
     w\<lparr>mem := (mem w)\<lparr>objects :=
          fold (\<lambda>r os. os[r := (os ! r)\<lparr>status := Active\<rparr>]) (arrays (mem w) ! a) (objects (mem w))\<rparr>\<rparr>"

definition sample :: behaviour where
  "sample l a w =
     (if l = 0 then Some (Return (scramble a w))
      else if l = 1 then Some (Return (reopen a w))
      else if l = 2 then Some (Throw w)
      else Some (Return w))"

text \<open>
  Instances of the two builtin conversions for running examples. They agree with the
  language on the arguments the examples give them: the whole numbers 0 to 9 for
  \<open>digit_toStr\<close>, the empty string and the one-digit strings for \<open>digit_toNum\<close>.
\<close>

definition digit_toStr :: "number \<Rightarrow> jsstring" where
  "digit_toStr n = (case n of Finite q \<Rightarrow> [0x30 + of_int \<lfloor>q\<rfloor>] | _ \<Rightarrow> ascii ''NaN'')"


text \<open>Two projects for examples, with the ids \<open>0.5\<close> and \<open>0.7\<close>.\<close>

definition garden :: "ProjectStatus \<Rightarrow> Project" where
  "garden s = \<lparr>pid = ascii ''0.5'', title = ascii ''Garden'',
               description = ascii ''Plant the trees'', people = Finite 2, status = s\<rparr>"

definition kitchen :: Project where
  "kitchen = \<lparr>pid = ascii ''0.7'', title = ascii ''Kitchen'',
              description = ascii ''Paint the walls'', people = Finite 3, status = Active\<rparr>"

text \<open>
  Two worlds for examples, each the state after registering listeners on a fresh page
  and adding the project \<open>garden\<close>: in \<open>demo\<close> the one listener is listener 0, in
  \<open>watched\<close> the listeners are 1 and 3, in this order.
\<close>

definition demo :: world where
  "demo =
     \<lparr>mem = \<lparr>objects = [garden Active], arrays = [[0], [0, 0]]\<rparr>,
      listeners = [0], projects = 0,
      calls = [\<lparr>callee = 0, arg = 1, items = [garden Active]\<rparr>],
      alerts = [], titlEl = [], descriptionEl = [], peopleEl = []\<rparr>"

definition watched :: world where
  "watched =
     \<lparr>mem = \<lparr>objects = [garden Active], arrays = [[0], [0], [0]]\<rparr>,
      listeners = [1, 3], projects = 0,
      calls = [\<lparr>callee = 1, arg = 1, items = [garden Active]\<rparr>,
               \<lparr>callee = 3, arg = 2, items = [garden Active]\<rparr>],
      alerts = [], titlEl = [], descriptionEl = [], peopleEl = []\<rparr>"

section \<open>Properties\<close>

subsection \<open>Auxiliary facts\<close>

lemma keeps_refl: "keeps p h h"
  by (simp add: keeps_def)

lemma keeps_trans: "keeps p h1 h2 \<Longrightarrow> keeps p h2 h3 \<Longrightarrow> keeps p h1 h3"
  by (auto simp: keeps_def)

lemma keeps_deref:
  assumes "keeps p h h'" and "\<forall>r \<in> set (arrays h ! p). r < length (objects h)"
  shows "deref h' p = deref h p"
  using assms by (auto simp: keeps_def deref_def)

lemma keeps_well_formed:
  assumes "well_formed w" and "keeps (projects w) (mem w) (mem w')" and "projects w' = projects w"
  shows "well_formed w'" and "stored w' = stored w"
proof -
  have refs: "\<forall>r \<in> set (arrays (mem w) ! projects w). r < length (objects (mem w))"
    using assms(1) by (simp add: well_formed_def)
  show "well_formed w'"
    using assms by (auto simp: well_formed_def keeps_def)
  show "stored w' = stored w"
    using keeps_deref [OF assms(2) refs] assms(3) by (simp add: stored_def)
qed

lemma notify_done:
  "\<not> i < length (listeners w) \<Longrightarrow> notify cb i w = Some (Return w)"
  by (subst notify.simps) simp

lemma notify_step:
  "i < length (listeners w) \<Longrightarrow>
     notify cb i w =
       (case call cb (listeners w ! i) w of
          None \<Rightarrow> None
        | Some r \<Rightarrow> (case r of Throw w' \<Rightarrow> Some (Throw w') | Return w' \<Rightarrow> notify cb (Suc i) w'))"
  by (subst notify.simps) simp

lemma call_unfold:
  "call cb l w =
     cb l (length (arrays (mem w)))
       (w\<lparr>mem := (mem w)\<lparr>arrays := arrays (mem w) @ [arrays (mem w) ! projects w]\<rparr>,
          calls := calls w @
            [\<lparr>callee = l, arg = length (arrays (mem w)),
              items = map (\<lambda>r. objects (mem w) ! r) (arrays (mem w) ! projects w)\<rparr>]\<rparr>)"
  by (simp add: call_def slice_def deref_def)

lemma served_Cons:
  "served cb (l # ls) w =
     (case call cb l w of Some (Return w') \<Rightarrow> served cb ls w' | r \<Rightarrow> r)"
  by (simp add: call_unfold)

lemma call_confined:
  assumes "confined cb l" and "well_formed w"
  obtains w' where "call cb l w = Some (Return w')"
    and "keeps (projects w) (mem w) (mem w')"
    and "listeners w' = listeners w" and "projects w' = projects w"
    and "calls w' = calls w @ [\<lparr>callee = l, arg = length (arrays (mem w)), items = stored w\<rparr>]"
    and "length (arrays (mem w)) \<noteq> projects w"
proof -
  let ?p = "projects w"
  let ?a = "length (arrays (mem w))"
  let ?w1 = "w\<lparr>mem := (mem w)\<lparr>arrays := arrays (mem w) @ [arrays (mem w) ! ?p]\<rparr>,
          calls := calls w @
            [\<lparr>callee = l, arg = ?a,
              items = map (\<lambda>r. objects (mem w) ! r) (arrays (mem w) ! ?p)\<rparr>]\<rparr>"
  have p: "?p < ?a"
    using assms(2) by (simp add: well_formed_def)
  have "?a < length (arrays (mem ?w1))" by simp
  with assms(1) obtain w' where w':
    "cb l ?a ?w1 = Some (Return w')" "frame ?a (mem ?w1) (mem w')"
    "listeners w' = listeners ?w1" "projects w' = projects ?w1" "calls w' = calls ?w1"
    unfolding confined_def by blast
  have k: "keeps ?p (mem w) (mem w')"
    using w'(2) p by (auto simp: frame_def keeps_def nth_append)
  show thesis
  proof (rule that [of w'])
    show "call cb l w = Some (Return w')"
      using w'(1) by (simp add: call_unfold)
    show "keeps ?p (mem w) (mem w')" by (rule k)
    show "listeners w' = listeners w" using w'(3) by simp
    show "projects w' = projects w" using w'(4) by simp
    show "calls w' = calls w @ [\<lparr>callee = l, arg = ?a, items = stored w\<rparr>]"
      using w'(5) by (simp add: stored_def deref_def)
    show "?a \<noteq> ?p" using p by simp
  qed
qed

lemma served_spec:
  assumes "\<forall>l \<in> set ls. confined cb l" and "well_formed w"
  shows "\<exists>w' new. served cb ls w = Some (Return w') \<and>
           keeps (projects w) (mem w) (mem w') \<and>
           projects w' = projects w \<and> listeners w' = listeners w \<and>
           calls w' = calls w @ new \<and> map callee new = ls \<and>
           (\<forall>c \<in> set new. items c = stored w \<and> arg c \<noteq> projects w)"
  using assms
proof (induction ls arbitrary: w)
  case Nil
  then show ?case by (simp add: keeps_refl)
next
  case (Cons l ls)
  from Cons.prems have cl: "confined cb l" by simp
  from call_confined [OF cl Cons.prems(2)] obtain w1 where w1:
    "call cb l w = Some (Return w1)"
    "keeps (projects w) (mem w) (mem w1)"
    "listeners w1 = listeners w" "projects w1 = projects w"
    "calls w1 = calls w @ [\<lparr>callee = l, arg = length (arrays (mem w)), items = stored w\<rparr>]"
    "length (arrays (mem w)) \<noteq> projects w"
    by blast
  have wf1: "well_formed w1" and st1: "stored w1 = stored w"
    using keeps_well_formed [OF Cons.prems(2) w1(2,4)] by simp_all
  from Cons.IH [of w1] Cons.prems(1) wf1 obtain w' new where ih:
    "served cb ls w1 = Some (Return w')"
    "keeps (projects w1) (mem w1) (mem w')"
    "projects w' = projects w1" "listeners w' = listeners w1"
    "calls w' = calls w1 @ new" "map callee new = ls"
    "\<forall>c \<in> set new. items c = stored w1 \<and> arg c \<noteq> projects w1"
    by auto
  let ?c = "\<lparr>callee = l, arg = length (arrays (mem w)), items = stored w\<rparr>"
  have "served cb (l # ls) w = Some (Return w')"
    unfolding served_Cons using w1(1) ih(1) by simp
  moreover have "keeps (projects w) (mem w) (mem w')"
    using w1(2) ih(2) w1(4) by (auto intro: keeps_trans)
  moreover have "calls w' = calls w @ (?c # new)"
    using ih(5) w1(5) by simp
  moreover have "map callee (?c # new) = l # ls"
    using ih(6) by simp
  moreover have "\<forall>c \<in> set (?c # new). items c = stored w \<and> arg c \<noteq> projects w"
    using ih(7) st1 w1(4,6) by simp
  ultimately show ?case
    using ih(3,4) w1(3,4) by (metis (no_types, lifting))
qed

lemma notify_served:
  assumes "\<forall>l \<in> set (listeners w). confined cb l" and "well_formed w"
  shows "notify cb i w = served cb (drop i (listeners w)) w"
  using assms
proof (induction "length (listeners w) - i" arbitrary: i w)
  case 0
  then show ?case by (simp add: notify_done)
next
  case (Suc n)
  then have i: "i < length (listeners w)" by simp
  let ?l = "listeners w ! i"
  have cl: "confined cb ?l"
    using Suc.prems(1) i by simp
  from call_confined [OF cl Suc.prems(2)] obtain w1 where w1:
    "call cb ?l w = Some (Return w1)"
    "keeps (projects w) (mem w) (mem w1)"
    "listeners w1 = listeners w" "projects w1 = projects w"
    by blast
  have wf1: "well_formed w1"
    using keeps_well_formed(1) [OF Suc.prems(2) w1(2,4)] .
  have "n = length (listeners w1) - Suc i"
    using Suc.hyps(2) w1(3) by simp
  from Suc.hyps(1) [OF this _ wf1] Suc.prems(1) w1(3)
  have ih: "notify cb (Suc i) w1 = served cb (drop (Suc i) (listeners w)) w1"
    by simp
  have d: "drop i (listeners w) = ?l # drop (Suc i) (listeners w)"
    using i by (simp add: Cons_nth_drop_Suc)
  show ?case
    unfolding d served_Cons using notify_step [OF i, of cb] w1(1) ih by simp
qed

lemma updateListeners_spec:
  assumes "\<forall>l \<in> set (listeners w). confined cb l" and "well_formed w"
  obtains w' where "updateListeners cb w = Some (Return w')"
    and "well_formed w'"
    and "keeps (projects w) (mem w) (mem w')"
    and "projects w' = projects w"
    and "listeners w' = listeners w"
    and "stored w' = stored w"
    and "take (length (calls w)) (calls w') = calls w"
    and "map callee (fresh_calls w w') = listeners w"
    and "\<forall>c \<in> set (fresh_calls w w'). items c = stored w \<and> arg c \<noteq> projects w"
proof -
  from served_spec [OF assms] obtain w' new where n:
    "served cb (listeners w) w = Some (Return w')"
    "keeps (projects w) (mem w) (mem w')"
    "projects w' = projects w" "listeners w' = listeners w"
    "calls w' = calls w @ new" "map callee new = listeners w"
    "\<forall>c \<in> set new. items c = stored w \<and> arg c \<noteq> projects w"
    by blast
  show thesis
  proof (rule that [of w'])
    show "updateListeners cb w = Some (Return w')"
      using notify_served [OF assms, of 0] n(1) by (simp add: updateListeners_def)
    show "well_formed w'" and "stored w' = stored w"
      using keeps_well_formed [OF assms(2) n(2,3)] by simp_all
    show "keeps (projects w) (mem w) (mem w')" by (rule n(2))
    show "projects w' = projects w" by (rule n(3))
    show "listeners w' = listeners w" by (rule n(4))
    show "take (length (calls w)) (calls w') = calls w"
      using n(5) by simp
    show "map callee (fresh_calls w w') = listeners w"
      using n(5,6) by (simp add: fresh_calls_def)
    show "\<forall>c \<in> set (fresh_calls w w'). items c = stored w \<and> arg c \<noteq> projects w"
      using n(5,7) by (simp add: fresh_calls_def)
  qed
qed

lemma updateListeners_served:
  assumes "\<forall>l \<in> set (listeners w). confined cb l" and "well_formed w"
  shows "updateListeners cb w = served cb (listeners w) w"
  using notify_served [OF assms, of 0] by (simp add: updateListeners_def)


lemma addProject_spec:
  assumes "well_formed w" and "\<forall>l \<in> set (listeners w). confined cb l"
  obtains w' where "addProject cb rnd t d n w = Some (Return w')"
    and "well_formed w'"
    and "stored w' =
           stored w @ [\<lparr>pid = rnd, title = t, description = d, people = n, status = Active\<rparr>]"
    and "take (length (calls w)) (calls w') = calls w"
    and "map callee (fresh_calls w w') = listeners w"
    and "\<forall>c \<in> set (fresh_calls w w'). items c = stored w' \<and> arg c \<noteq> projects w"
    and "projects w' = projects w"
    and "listeners w' = listeners w"
proof -
  let ?new = "\<lparr>pid = rnd, title = t, description = d, people = n, status = Active\<rparr>"
  let ?h = "mem w"
  let ?h1 = "?h\<lparr>objects := objects ?h @ [?new]\<rparr>"
  let ?h2 = "?h1\<lparr>arrays := (arrays ?h1)[projects w := arrays ?h1 ! projects w @ [length (objects ?h)]]\<rparr>"
  let ?w0 = "w\<lparr>mem := ?h2\<rparr>"
  have eq: "addProject cb rnd t d n w = updateListeners cb ?w0"
    by (simp add: addProject_def Let_def)
  have p: "projects w < length (arrays ?h)"
    and refs: "\<forall>r \<in> set (arrays ?h ! projects w). r < length (objects ?h)"
    using assms(1) by (simp_all add: well_formed_def)
  have wf0: "well_formed ?w0"
    using p refs by (auto simp: well_formed_def less_Suc_eq)
  have l0: "\<forall>l \<in> set (listeners ?w0). confined cb l"
    using assms(2) by simp
  have st0: "stored ?w0 = stored w @ [?new]"
    using p refs by (simp add: stored_def deref_def nth_append)
  from updateListeners_spec [OF l0 wf0] obtain w' where u:
    "updateListeners cb ?w0 = Some (Return w')" "well_formed w'"
    "projects w' = projects ?w0" "listeners w' = listeners ?w0" "stored w' = stored ?w0"
    "take (length (calls ?w0)) (calls w') = calls ?w0"
    "map callee (fresh_calls ?w0 w') = listeners ?w0"
    "\<forall>c \<in> set (fresh_calls ?w0 w'). items c = stored ?w0 \<and> arg c \<noteq> projects ?w0"
    by blast
  have fc: "fresh_calls w w' = fresh_calls ?w0 w'"
    by (simp add: fresh_calls_def)
  show thesis
  proof (rule that [of w'])
    show "addProject cb rnd t d n w = Some (Return w')"
      using eq u(1) by simp
    show "well_formed w'" by (rule u(2))
    show "stored w' = stored w @ [?new]"
      using u(5) st0 by simp
    show "take (length (calls w)) (calls w') = calls w"
      using u(6) by simp
    show "map callee (fresh_calls w w') = listeners w"
      unfolding fc using u(7) by simp
    show "\<forall>c \<in> set (fresh_calls w w'). items c = stored w' \<and> arg c \<noteq> projects w"
      unfolding fc using u(5,8) by simp
    show "projects w' = projects w" using u(3) by simp
    show "listeners w' = listeners w" using u(4) by simp
  qed
qed

lemma addProject_served:
  assumes "well_formed w" and "\<forall>l \<in> set (listeners w). confined cb l"
  shows "addProject cb rnd t d n w =
           served cb (listeners w)
             (w\<lparr>mem := (mem w)\<lparr>objects := objects (mem w) @
                   [\<lparr>pid = rnd, title = t, description = d, people = n, status = Active\<rparr>],
                 arrays := (arrays (mem w))
                   [projects w := arrays (mem w) ! projects w @ [length (objects (mem w))]]\<rparr>\<rparr>)"
proof -
  let ?w0 = "w\<lparr>mem := (mem w)\<lparr>objects := objects (mem w) @
                   [\<lparr>pid = rnd, title = t, description = d, people = n, status = Active\<rparr>],
                 arrays := (arrays (mem w))
                   [projects w := arrays (mem w) ! projects w @ [length (objects (mem w))]]\<rparr>\<rparr>"
  have eq: "addProject cb rnd t d n w = updateListeners cb ?w0"
    by (simp add: addProject_def Let_def)
  have wf0: "well_formed ?w0"
    using assms(1) by (auto simp: well_formed_def less_Suc_eq)
  have l0: "\<forall>l \<in> set (listeners ?w0). confined cb l"
    using assms(2) by simp
  show ?thesis
    unfolding eq using updateListeners_served [OF l0 wf0] by simp
qed

lemma moveProject_miss:
  assumes "find (\<lambda>prj. pid (objects (mem w) ! prj) = projectId) (arrays (mem w) ! projects w) = None"
  shows "moveProject cb projectId S w = Some (Return w)"
  using assms by (simp add: moveProject_def)

lemma moveProject_same:
  assumes "find (\<lambda>prj. pid (objects (mem w) ! prj) = projectId) (arrays (mem w) ! projects w) = Some r"
    and "status (objects (mem w) ! r) = S"
  shows "moveProject cb projectId S w = Some (Return w)"
  using assms by (simp add: moveProject_def)

lemma moveProject_hit:
  assumes "find (\<lambda>prj. pid (objects (mem w) ! prj) = projectId) (arrays (mem w) ! projects w) = Some r"
    and "status (objects (mem w) ! r) \<noteq> S"
  shows "moveProject cb projectId S w =
           updateListeners cb (w\<lparr>mem := (mem w)\<lparr>objects := (objects (mem w))
                              [r := (objects (mem w) ! r)\<lparr>status := S\<rparr>]\<rparr>\<rparr>)"
  using assms by (simp add: moveProject_def Let_def)

lemma moveProject_spec:
  assumes "well_formed w" and "\<forall>l \<in> set (listeners w). confined cb l"
    and "find (\<lambda>prj. pid (objects (mem w) ! prj) = projectId) (arrays (mem w) ! projects w) = Some r"
    and "status (objects (mem w) ! r) \<noteq> S"
  obtains w' where "moveProject cb projectId S w = Some (Return w')"
    and "moveProject cb projectId S w =
           served cb (listeners w)
             (w\<lparr>mem := (mem w)\<lparr>objects := (objects (mem w))
                              [r := (objects (mem w) ! r)\<lparr>status := S\<rparr>]\<rparr>\<rparr>)"
    and "well_formed w'"
    and "projects w' = projects w"
    and "listeners w' = listeners w"
    and "arrays (mem w') ! projects w = arrays (mem w) ! projects w"
    and "objects (mem w') ! r = (objects (mem w) ! r)\<lparr>status := S\<rparr>"
    and "stored w' =
           map (\<lambda>q. if q = r then (objects (mem w) ! r)\<lparr>status := S\<rparr> else objects (mem w) ! q)
             (arrays (mem w) ! projects w)"
    and "take (length (calls w)) (calls w') = calls w"
    and "map callee (fresh_calls w w') = listeners w"
    and "\<forall>c \<in> set (fresh_calls w w'). items c = stored w' \<and> arg c \<noteq> projects w"
proof -
  let ?h = "mem w"
  let ?w0 = "w\<lparr>mem := ?h\<lparr>objects := (objects ?h)[r := (objects ?h ! r)\<lparr>status := S\<rparr>]\<rparr>\<rparr>"
  have eq: "moveProject cb projectId S w = updateListeners cb ?w0"
    using assms(3,4) by (rule moveProject_hit)
  have p: "projects w < length (arrays ?h)"
    and refs: "\<forall>q \<in> set (arrays ?h ! projects w). q < length (objects ?h)"
    using assms(1) by (simp_all add: well_formed_def)
  have "r \<in> set (arrays ?h ! projects w)"
    using assms(3) by (auto simp: find_Some_iff)
  with refs have r: "r < length (objects ?h)" by simp
  have wf0: "well_formed ?w0"
    using p refs by (simp add: well_formed_def)
  have l0: "\<forall>l \<in> set (listeners ?w0). confined cb l"
    using assms(2) by simp
  have st0: "stored ?w0 =
      map (\<lambda>q. if q = r then (objects ?h ! r)\<lparr>status := S\<rparr> else objects ?h ! q)
        (arrays ?h ! projects w)"
    using r by (simp add: stored_def deref_def nth_list_update)
  from updateListeners_spec [OF l0 wf0] obtain w' where u:
    "updateListeners cb ?w0 = Some (Return w')" "well_formed w'"
    "keeps (projects ?w0) (mem ?w0) (mem w')"
    "projects w' = projects ?w0" "listeners w' = listeners ?w0" "stored w' = stored ?w0"
    "take (length (calls ?w0)) (calls w') = calls ?w0"
    "map callee (fresh_calls ?w0 w') = listeners ?w0"
    "\<forall>c \<in> set (fresh_calls ?w0 w'). items c = stored ?w0 \<and> arg c \<noteq> projects ?w0"
    by blast
  have fc: "fresh_calls w w' = fresh_calls ?w0 w'"
    by (simp add: fresh_calls_def)
  show thesis
  proof (rule that [of w'])
    show "moveProject cb projectId S w = Some (Return w')"
      using eq u(1) by simp
    show "moveProject cb projectId S w = served cb (listeners w) ?w0"
      unfolding eq using updateListeners_served [OF l0 wf0] by simp
    show "well_formed w'" by (rule u(2))
    show "projects w' = projects w" using u(4) by simp
    show "listeners w' = listeners w" using u(5) by simp
    show "arrays (mem w') ! projects w = arrays ?h ! projects w"
      using u(3) by (simp add: keeps_def)
    show "objects (mem w') ! r = (objects ?h ! r)\<lparr>status := S\<rparr>"
      using u(3) r by (simp add: keeps_def)
    show "stored w' =
      map (\<lambda>q. if q = r then (objects ?h ! r)\<lparr>status := S\<rparr> else objects ?h ! q)
        (arrays ?h ! projects w)"
      using u(6) st0 by simp
    show "take (length (calls w)) (calls w') = calls w"
      using u(7) by simp
    show "map callee (fresh_calls w w') = listeners w"
      unfolding fc using u(8) by simp
    show "\<forall>c \<in> set (fresh_calls w w'). items c = stored w' \<and> arg c \<noteq> projects w"
      unfolding fc using u(6,9) by simp
  qed
qed



lemma ascii_append: "ascii (a @ b) = ascii a @ ascii b"
  by (simp add: ascii_def)

lemma code_unit_eq_iff:
  "(of_nat (of_char c) :: 16 word) = of_nat (of_char d) \<longleftrightarrow> c = d"
proof -
  have "(of_char c :: nat) < 2 ^ 16" "(of_char d :: nat) < 2 ^ 16"
    by (rule less_trans [OF nat_of_char_less_256], simp)+
  then have "take_bit 16 (of_char c :: nat) = of_char c" "take_bit 16 (of_char d :: nat) = of_char d"
    by (simp_all add: take_bit_nat_eq_self)
  then show ?thesis
    by (simp add: word_of_nat_eq_iff)
qed

lemma ascii_eq_iff: "ascii a = ascii b \<longleftrightarrow> a = b"
proof
  assume "ascii a = ascii b"
  then show "a = b"
    unfolding ascii_def
  proof (induction a arbitrary: b)
    case Nil
    then show ?case by simp
  next
    case (Cons c a)
    then show ?case by (cases b) (auto simp: code_unit_eq_iff)
  qed
qed simp

lemma length_ascii: "length (ascii s) = length s"
  by (simp add: ascii_def)

lemma garden_simps:
  "pid (garden s) = ascii ''0.5''" "status (garden s) = s"
  "(garden s)\<lparr>status := s'\<rparr> = garden s'"
  by (simp_all add: garden_def)

lemma kitchen_simps:
  "pid kitchen = ascii ''0.7''" "status kitchen = Active"
  by (simp_all add: kitchen_def)

lemma confined_sample_0: "confined sample 0"
  by (simp add: confined_def sample_def scramble_def frame_def)

lemma confined_sample_3: "confined sample 3"
  by (simp add: confined_def sample_def frame_def)

lemmas run_store =
  notify_step notify_done updateListeners_def call_def slice_def deref_def
  sample_def scramble_def reopen_def garden_simps

lemma well_formed_demo: "well_formed demo"
  by (simp add: demo_def well_formed_def)

lemma confined_demo: "\<forall>l \<in> set (listeners demo). confined sample l"
  by (simp add: demo_def confined_sample_0)

lemma find_demo:
  "find (\<lambda>prj. pid (objects (mem demo) ! prj) = ascii ''0.5'') (arrays (mem demo) ! projects demo)
     = Some 0"
  by (simp add: demo_def garden_simps)

text \<open>The two example worlds are states that runs from the initial state end in.\<close>

lemma demo_reached:
  "run sample
     [AddListener 0,
      AddProject (ascii ''0.5'') (ascii ''Garden'') (ascii ''Plant the trees'') (Finite 2)] init
   = Some demo"
  by (simp add: addListener_def addProject_def init_def demo_def run_store garden_def)

lemma watched_reached:
  "run sample
     [AddListener 1, AddListener 3,
      AddProject (ascii ''0.5'') (ascii ''Garden'') (ascii ''Plant the trees'') (Finite 2)] init
   = Some watched"
  by (simp add: addListener_def addProject_def init_def watched_def run_store garden_def)

lemma demo_moved:
  "moveProject sample (ascii ''0.5'') Finished demo =
     Some (Return
       \<lparr>mem = \<lparr>objects = [garden Finished], arrays = [[0], [0, 0], [0, 0]]\<rparr>,
        listeners = [0], projects = 0,
        calls = [\<lparr>callee = 0, arg = 1, items = [garden Active]\<rparr>,
                 \<lparr>callee = 0, arg = 2, items = [garden Finished]\<rparr>],
        alerts = [], titlEl = [], descriptionEl = [], peopleEl = []\<rparr>)"
  by (simp add: moveProject_def demo_def run_store)

lemma demo_added:
  "addProject sample (ascii ''0.7'') (ascii ''Kitchen'') (ascii ''Paint the walls'') (Finite 3) demo =
     Some (Return
       \<lparr>mem = \<lparr>objects = [garden Active, kitchen], arrays = [[0, 1], [0, 0], [1, 0, 0, 1]]\<rparr>,
        listeners = [0], projects = 0,
        calls = [\<lparr>callee = 0, arg = 1, items = [garden Active]\<rparr>,
                 \<lparr>callee = 0, arg = 2, items = [garden Active, kitchen]\<rparr>],
        alerts = [], titlEl = [], descriptionEl = [], peopleEl = []\<rparr>)"
  by (simp add: addProject_def demo_def run_store kitchen_def)







subsection \<open>The validator\<close>

text \<open>
  C1. The rule \<open>{value: 6, max: 5, min: 1, field: "People"}\<close> is invalid, but the message
  returned is not the one of the \<open>max\<close> check, the only check that fails: the \<open>min\<close>
  block runs after it, finds \<open>isValid\<close> already false and assigns its own text, so the
  message says that 6 is less than 1. This holds whatever the number rendering is.
\<close>

theorem validatedInput_six_of_five:
  "validatedInput toStr
     \<lparr>val = Num (Finite 6), required = None, minLength = None, maxLength = None,
      max_num = Some (Finite 5), min_num = Some (Finite 1), field = ascii ''People''\<rparr>
   = \<lparr>isValid = False,
      message = ascii ''People field most not be less than '' @ toStr (Finite 1)
                  @ ascii '' numbers''\<rparr> \<and>
   ascii ''People field most not be less than '' @ toStr (Finite 1) @ ascii '' numbers''
     \<noteq> ascii ''People field most not be more than '' @ toStr (Finite 5) @ ascii '' numbers''"
  by (simp add: validatedInput_def num_ge_def ascii_append [symmetric] length_ascii ascii_eq_iff)

text \<open>
  C2. The rule \<open>{value: "", required: true, field: "Title"}\<close> is accepted with an empty
  message: the presence block is guarded by the truthiness of the value, the empty string
  is falsy, and so the block that would reject it is skipped.
\<close>

theorem validatedInput_empty_required:
  "validatedInput toStr
     \<lparr>val = Str [], required = Some True, minLength = None, maxLength = None,
      max_num = None, min_num = None, field = ascii ''Title''\<rparr>
   = \<lparr>isValid = True, message = []\<rparr>"
  by (simp add: validatedInput_def)

text \<open>
  C10. Two rules that differ only in their \<open>required\<close> flag (true, false or absent)
  get the same verdict, validity and message alike: the flag is never read.
\<close>

theorem validatedInput_ignores_required:
  "validatedInput toStr (v\<lparr>required := a\<rparr>) = validatedInput toStr (v\<lparr>required := b\<rparr>)"
  by (simp add: validatedInput_def Let_def cong: if_cong option.case_cong jsvalue.case_cong)

theorem validatedInput_ignores_required_witness:
  "validatedInput digit_toStr
     \<lparr>val = Str [], required = Some True, minLength = None, maxLength = None,
      max_num = None, min_num = None, field = ascii ''Title''\<rparr>
   = validatedInput digit_toStr
     \<lparr>val = Str [], required = None, minLength = None, maxLength = None,
      max_num = None, min_num = None, field = ascii ''Title''\<rparr>"
  using validatedInput_ignores_required
    [where toStr = digit_toStr and a = "Some True" and b = None
       and v = "\<lparr>val = Str [], required = None, minLength = None, maxLength = None,
                max_num = None, min_num = None, field = ascii ''Title''\<rparr>"]
  by simp

subsection \<open>The project store\<close>

text \<open>
  C3, as the code has it. In a well-formed world whose registered listeners are all
  confined, let \<open>moveProject\<close> find the project \<open>r\<close> for the given id, with a
  status other than \<open>S\<close>. Then the call is the round of notification of the
  specification, run on the world with that status written: every registered listener is
  called once, in registration order, on a new array. The call returns; the project has
  status \<open>S\<close> afterwards; the collection is the same sequence of objects with that one
  change; and the log grows by one invocation per registered listener, in registration
  order, each handed the collection with the change made.
\<close>

theorem moveProject_moves:
  assumes "well_formed w" and "\<forall>l \<in> set (listeners w). confined cb l"
    and "find (\<lambda>prj. pid (objects (mem w) ! prj) = projectId) (arrays (mem w) ! projects w) = Some r"
    and "status (objects (mem w) ! r) \<noteq> S"
  shows "moveProject cb projectId S w =
           served cb (listeners w)
             (w\<lparr>mem := (mem w)\<lparr>objects := (objects (mem w))
                              [r := (objects (mem w) ! r)\<lparr>status := S\<rparr>]\<rparr>\<rparr>) \<and>
         (\<exists>w'. moveProject cb projectId S w = Some (Return w') \<and>
            status (objects (mem w') ! r) = S \<and>
            arrays (mem w') ! projects w' = arrays (mem w) ! projects w \<and>
            stored w' =
              map (\<lambda>q. if q = r then (objects (mem w) ! r)\<lparr>status := S\<rparr> else objects (mem w) ! q)
                (arrays (mem w) ! projects w) \<and>
            take (length (calls w)) (calls w') = calls w \<and>
            map callee (fresh_calls w w') = listeners w \<and>
            (\<forall>c \<in> set (fresh_calls w w'). items c = stored w' \<and> arg c \<noteq> projects w))"
proof -
  from moveProject_spec [OF assms] obtain w' where m:
    "moveProject cb projectId S w = Some (Return w')"
    "moveProject cb projectId S w =
           served cb (listeners w)
             (w\<lparr>mem := (mem w)\<lparr>objects := (objects (mem w))
                              [r := (objects (mem w) ! r)\<lparr>status := S\<rparr>]\<rparr>\<rparr>)"
    "projects w' = projects w"
    "arrays (mem w') ! projects w = arrays (mem w) ! projects w"
    "objects (mem w') ! r = (objects (mem w) ! r)\<lparr>status := S\<rparr>"
    "stored w' =
           map (\<lambda>q. if q = r then (objects (mem w) ! r)\<lparr>status := S\<rparr> else objects (mem w) ! q)
             (arrays (mem w) ! projects w)"
    "take (length (calls w)) (calls w') = calls w"
    "map callee (fresh_calls w w') = listeners w"
    "\<forall>c \<in> set (fresh_calls w w'). items c = stored w' \<and> arg c \<noteq> projects w"
    by blast
  have "status (objects (mem w') ! r) = S"
    using m(5) by simp
  then show ?thesis
    using m by (intro conjI exI [of _ w']) simp_all
qed

theorem moveProject_moves_witness:
  "well_formed demo \<and> list_all (confined sample) (listeners demo) \<and>
   find (\<lambda>prj. pid (objects (mem demo) ! prj) = ascii ''0.5'') (arrays (mem demo) ! projects demo)
     = Some 0 \<and>
   status (objects (mem demo) ! 0) \<noteq> Finished \<and>
   moveProject sample (ascii ''0.5'') Finished demo =
     served sample [0] (demo\<lparr>mem := \<lparr>objects = [garden Finished], arrays = [[0], [0, 0]]\<rparr>\<rparr>) \<and>
   moveProject sample (ascii ''0.5'') Finished demo =
     Some (Return
       \<lparr>mem = \<lparr>objects = [garden Finished], arrays = [[0], [0, 0], [0, 0]]\<rparr>,
        listeners = [0], projects = 0,
        calls = [\<lparr>callee = 0, arg = 1, items = [garden Active]\<rparr>,
                 \<lparr>callee = 0, arg = 2, items = [garden Finished]\<rparr>],
        alerts = [], titlEl = [], descriptionEl = [], peopleEl = []\<rparr>)"
proof -
  have s: "status (objects (mem demo) ! 0) \<noteq> Finished"
    by (simp add: demo_def garden_simps)
  have c: "list_all (confined sample) (listeners demo)"
    using confined_demo by (simp add: list_all_iff)
  have l: "listeners demo = [0]"
    "demo\<lparr>mem := (mem demo)\<lparr>objects := (objects (mem demo))
        [0 := (objects (mem demo) ! 0)\<lparr>status := Finished\<rparr>]\<rparr>\<rparr>
     = demo\<lparr>mem := \<lparr>objects = [garden Finished], arrays = [[0], [0, 0]]\<rparr>\<rparr>"
    by (simp_all add: demo_def garden_simps)
  from moveProject_moves [OF well_formed_demo confined_demo find_demo s]
  have "moveProject sample (ascii ''0.5'') Finished demo =
          served sample (listeners demo)
            (demo\<lparr>mem := (mem demo)\<lparr>objects := (objects (mem demo))
               [0 := (objects (mem demo) ! 0)\<lparr>status := Finished\<rparr>]\<rparr>\<rparr>)"
    by (rule conjunct1)
  then have t: "moveProject sample (ascii ''0.5'') Finished demo =
     served sample [0] (demo\<lparr>mem := \<lparr>objects = [garden Finished], arrays = [[0], [0, 0]]\<rparr>\<rparr>)"
    by (simp only: l)
  show ?thesis
    by (intro conjI) (fact well_formed_demo c find_demo s t demo_moved)+
qed

text \<open>
  C3, as stated, fails: the listeners are handed the \<open>Project\<close> objects of the
  store themselves. In \<open>watched\<close> the first listener sets the status of what it is
  handed back to \<open>Active\<close>; after \<open>moveProject\<close> to \<open>Finished\<close> the second
  listener is handed the project with status \<open>Active\<close>, and that is the status the
  store is left with.
\<close>

theorem moveProject_moves_counterexample:
  "well_formed watched \<and>
   ascii ''0.5'' \<in> set (map pid (stored watched)) \<and>
   map status (stored watched) = [Active] \<and>
   moveProject sample (ascii ''0.5'') Finished watched =
     Some (Return
       \<lparr>mem = \<lparr>objects = [garden Active], arrays = [[0], [0], [0], [0], [0]]\<rparr>,
        listeners = [1, 3], projects = 0,
        calls = [\<lparr>callee = 1, arg = 1, items = [garden Active]\<rparr>,
                 \<lparr>callee = 3, arg = 2, items = [garden Active]\<rparr>,
                 \<lparr>callee = 1, arg = 3, items = [garden Finished]\<rparr>,
                 \<lparr>callee = 3, arg = 4, items = [garden Active]\<rparr>],
        alerts = [], titlEl = [], descriptionEl = [], peopleEl = []\<rparr>)"
  by (simp add: moveProject_def watched_def well_formed_def stored_def run_store)

text \<open>
  C4. When \<open>moveProject\<close> finds the project for the given id and its status already is
  \<open>S\<close>, the call returns and changes nothing at all: the collection and the log of
  invocations are as before (no listener is called), and so calling it again changes
  nothing either.
\<close>

theorem moveProject_same_status:
  assumes "find (\<lambda>prj. pid (objects (mem w) ! prj) = projectId) (arrays (mem w) ! projects w) = Some r"
    and "status (objects (mem w) ! r) = S"
  shows "moveProject cb projectId S w = Some (Return w) \<and>
         map_option (stored \<circ> state_of) (moveProject cb projectId S w) = Some (stored w) \<and>
         map_option (calls \<circ> state_of) (moveProject cb projectId S w) = Some (calls w) \<and>
         Option.bind (moveProject cb projectId S w)
           (\<lambda>x. moveProject cb projectId S (state_of x)) = moveProject cb projectId S w"
  using moveProject_same [OF assms] by simp

theorem moveProject_same_status_witness:
  "find (\<lambda>prj. pid (objects (mem demo) ! prj) = ascii ''0.5'') (arrays (mem demo) ! projects demo)
     = Some 0 \<and>
   status (objects (mem demo) ! 0) = Active \<and>
   moveProject sample (ascii ''0.5'') Active demo = Some (Return demo) \<and>
   map_option (calls \<circ> state_of) (moveProject sample (ascii ''0.5'') Active demo)
     = Some (calls demo)"
proof -
  have s: "status (objects (mem demo) ! 0) = Active"
    by (simp add: demo_def garden_simps)
  show ?thesis
    using moveProject_same_status [OF find_demo s, of sample] find_demo s by simp
qed

text \<open>
  C5. When no stored project has the given id, \<open>moveProject\<close> returns, without
  throwing, the world it was given: the collection is unchanged and no listener is
  called.
\<close>

theorem moveProject_unknown_id:
  assumes "projectId \<notin> set (map pid (stored w))"
  shows "moveProject cb projectId S w = Some (Return w) \<and>
         map_option (stored \<circ> state_of) (moveProject cb projectId S w) = Some (stored w) \<and>
         map_option (calls \<circ> state_of) (moveProject cb projectId S w) = Some (calls w)"
proof -
  have "find (\<lambda>prj. pid (objects (mem w) ! prj) = projectId) (arrays (mem w) ! projects w) = None"
    using assms by (auto simp: find_None_iff stored_def deref_def)
  then show ?thesis
    by (simp add: moveProject_miss)
qed

theorem moveProject_unknown_id_witness:
  "ascii ''0.9'' \<notin> set (map pid (stored demo)) \<and>
   moveProject sample (ascii ''0.9'') Finished demo = Some (Return demo) \<and>
   map_option (stored \<circ> state_of) (moveProject sample (ascii ''0.9'') Finished demo)
     = Some (stored demo) \<and>
   map_option (calls \<circ> state_of) (moveProject sample (ascii ''0.9'') Finished demo)
     = Some (calls demo)"
proof -
  have h: "ascii ''0.9'' \<notin> set (map pid (stored demo))"
    by (simp add: demo_def stored_def deref_def garden_simps ascii_eq_iff)
  show ?thesis
    using moveProject_unknown_id [OF h, of sample Finished] h by simp
qed

text \<open>
  C6, as the code has it. In a well-formed world whose registered listeners are all
  confined, \<open>addProject\<close>, for any title, description and number whatsoever, is the
  round of notification of the specification run on the world with the new project
  pushed. The call returns; the stored projects are as they were, with one project after
  them: status \<open>Active\<close>, the given values, the id drawn for this call. The log grows
  by one invocation per registered listener, in registration order, each handed an array
  other than the store's own that holds the collection with the new project.
\<close>

theorem addProject_appends:
  assumes "well_formed w" and "\<forall>l \<in> set (listeners w). confined cb l"
  shows "addProject cb rnd t d n w =
           served cb (listeners w)
             (w\<lparr>mem := (mem w)\<lparr>objects := objects (mem w) @
                   [\<lparr>pid = rnd, title = t, description = d, people = n, status = Active\<rparr>],
                 arrays := (arrays (mem w))
                   [projects w := arrays (mem w) ! projects w @ [length (objects (mem w))]]\<rparr>\<rparr>) \<and>
         (\<exists>w'. addProject cb rnd t d n w = Some (Return w') \<and>
            stored w' =
              stored w @ [\<lparr>pid = rnd, title = t, description = d, people = n, status = Active\<rparr>] \<and>
            take (length (calls w)) (calls w') = calls w \<and>
            map callee (fresh_calls w w') = listeners w \<and>
            (\<forall>c \<in> set (fresh_calls w w'). items c = stored w' \<and> arg c \<noteq> projects w) \<and>
            projects w' = projects w \<and>
            listeners w' = listeners w)"
proof -
  from addProject_spec [OF assms, of rnd t d n] obtain w' where
    "addProject cb rnd t d n w = Some (Return w')"
    "stored w' =
           stored w @ [\<lparr>pid = rnd, title = t, description = d, people = n, status = Active\<rparr>]"
    "take (length (calls w)) (calls w') = calls w"
    "map callee (fresh_calls w w') = listeners w"
    "\<forall>c \<in> set (fresh_calls w w'). items c = stored w' \<and> arg c \<noteq> projects w"
    "projects w' = projects w" "listeners w' = listeners w"
    by blast
  then show ?thesis
    using addProject_served [OF assms, of rnd t d n]
    by (intro conjI exI [of _ w']) simp_all
qed

theorem addProject_appends_witness:
  "well_formed demo \<and> list_all (confined sample) (listeners demo) \<and>
   addProject sample (ascii ''0.7'') (ascii ''Kitchen'') (ascii ''Paint the walls'') (Finite 3) demo =
     served sample [0]
       (demo\<lparr>mem := \<lparr>objects = [garden Active, kitchen], arrays = [[0, 1], [0, 0]]\<rparr>\<rparr>) \<and>
   addProject sample (ascii ''0.7'') (ascii ''Kitchen'') (ascii ''Paint the walls'') (Finite 3) demo =
     Some (Return
       \<lparr>mem = \<lparr>objects = [garden Active, kitchen], arrays = [[0, 1], [0, 0], [1, 0, 0, 1]]\<rparr>,
        listeners = [0], projects = 0,
        calls = [\<lparr>callee = 0, arg = 1, items = [garden Active]\<rparr>,
                 \<lparr>callee = 0, arg = 2, items = [garden Active, kitchen]\<rparr>],
        alerts = [], titlEl = [], descriptionEl = [], peopleEl = []\<rparr>)"
proof -
  have c: "list_all (confined sample) (listeners demo)"
    using confined_demo by (simp add: list_all_iff)
  have l: "listeners demo = [0]"
    "demo\<lparr>mem := (mem demo)\<lparr>objects := objects (mem demo) @
         [\<lparr>pid = ascii ''0.7'', title = ascii ''Kitchen'', description = ascii ''Paint the walls'',
           people = Finite 3, status = Active\<rparr>],
       arrays := (arrays (mem demo))
         [projects demo := arrays (mem demo) ! projects demo @ [length (objects (mem demo))]]\<rparr>\<rparr>
     = demo\<lparr>mem := \<lparr>objects = [garden Active, kitchen], arrays = [[0, 1], [0, 0]]\<rparr>\<rparr>"
    by (simp_all add: demo_def kitchen_def)
  from addProject_appends [OF well_formed_demo confined_demo,
      of "ascii ''0.7''" "ascii ''Kitchen''" "ascii ''Paint the walls''" "Finite 3"]
  have "addProject sample (ascii ''0.7'') (ascii ''Kitchen'') (ascii ''Paint the walls'') (Finite 3) demo =
     served sample (listeners demo)
       (demo\<lparr>mem := (mem demo)\<lparr>objects := objects (mem demo) @
         [\<lparr>pid = ascii ''0.7'', title = ascii ''Kitchen'', description = ascii ''Paint the walls'',
           people = Finite 3, status = Active\<rparr>],
       arrays := (arrays (mem demo))
         [projects demo := arrays (mem demo) ! projects demo @ [length (objects (mem demo))]]\<rparr>\<rparr>)"
    by (rule conjunct1)
  then have t: "addProject sample (ascii ''0.7'') (ascii ''Kitchen'') (ascii ''Paint the walls'')
      (Finite 3) demo =
     served sample [0]
       (demo\<lparr>mem := \<lparr>objects = [garden Active, kitchen], arrays = [[0, 1], [0, 0]]\<rparr>\<rparr>)"
    by (simp only: l)
  show ?thesis
    by (intro conjI) (fact well_formed_demo c t demo_added)+
qed

text \<open>
  C6, as stated, fails: \<open>addProject\<close> has no \<open>try\<close> around the listeners, so
  with a listener that throws it throws, after the project has been pushed.
\<close>

theorem addProject_appends_counterexample:
  "addProject sample (ascii ''0.7'') (ascii ''Kitchen'') (ascii ''Paint the walls'') (Finite 3)
     (addListener 2 init) =
     Some (Throw
       \<lparr>mem = \<lparr>objects = [kitchen], arrays = [[0], [0]]\<rparr>,
        listeners = [2], projects = 0,
        calls = [\<lparr>callee = 2, arg = 1, items = [kitchen]\<rparr>],
        alerts = [], titlEl = [], descriptionEl = [], peopleEl = []\<rparr>)"
  by (simp add: addProject_def addListener_def init_def run_store kitchen_def)







subsection \<open>The project form\<close>



end
